theory Spec2Isabelle
  imports Main "HOL-Library.Word"
begin

section \<open>The clock and the observable world\<close>

text \<open>
  \<^verbatim>\<open>std::chrono::nanoseconds\<close> is a signed 64-bit tick count.  It is embedded as a
  64-bit word: \<open>+\<close> is the machine addition (two's complement, wrapping where C++
  leaves signed overflow undefined), and stamps are compared as signed values
  (\<open><s\<close>, \<open>\<le>s\<close>).  Whenever the mathematical sum fits into 64 bits the machine sum
  is that sum (lemma \<open>sint_stamp_plus\<close> below).
\<close>

type_synonym nanoseconds = "64 word"

text \<open>
  Two things can be observed from outside: that the registry polls the timer stored
  under a key, and that a bound callable is entered.  Both are recorded in a trace.
\<close>

datatype event = Poll string | Fire nat

text \<open>
  The world outside of the scheduler: the high-resolution clock, given by the value
  its \<open>n\<close>-th reading returns together with the number of readings taken so far,
  the trace, and the state \<open>'u\<close> of the calling program that callables work on.
\<close>

record 'u world =
  clock :: "nat \<Rightarrow> nanoseconds"
  reads :: nat
  trace :: "event list"
  user :: 'u

definition CurrNanoTimeStamp :: "'u world \<Rightarrow> nanoseconds \<times> 'u world" where
  "CurrNanoTimeStamp w = (clock w (reads w), w\<lparr>reads := Suc (reads w)\<rparr>)"

section \<open>Task\<close>

text \<open>
  A bound callable (\<^verbatim>\<open>std::function<void()>\<close>): an identity and a body, which
  transforms the caller's state and either returns (\<open>None\<close>) or throws \<open>Some x\<close>.
  Callables act on the caller's state only; they hold no reference into the timer
  or the registry that runs them.
\<close>

record ('x, 'u) callable =
  ident :: nat
  body :: "'u \<Rightarrow> 'x option \<times> 'u"

definition invoke :: "('x, 'u) callable \<Rightarrow> 'u world \<Rightarrow> 'x option \<times> 'u world" where
  "invoke f w =
     (case body f (user w) of
        (r, u') \<Rightarrow> (r, w\<lparr>trace := trace w @ [Fire (ident f)], user := u'\<rparr>))"

record ('x, 'u) Task =
  mHasSetInterval :: bool
  mTask :: "('x, 'u) callable"
  mNextExecStamp :: nanoseconds
  mNanoInterval :: nanoseconds

definition OnIntervalChanged ::
  "('x, 'u) Task \<Rightarrow> 'u world \<Rightarrow> ('x, 'u) Task \<times> 'u world" where
  "OnIntervalChanged tk w =
     (case CurrNanoTimeStamp w of
        (now, w') \<Rightarrow> (tk\<lparr>mNextExecStamp := now + mNanoInterval tk\<rparr>, w'))"

definition setIntervalChronoNanos ::
  "nanoseconds \<Rightarrow> ('x, 'u) Task \<Rightarrow> 'u world \<Rightarrow> ('x, 'u) Task \<times> 'u world" where
  "setIntervalChronoNanos intervl tk w =
     OnIntervalChanged (tk\<lparr>mNanoInterval := intervl, mHasSetInterval := True\<rparr>) w"

text \<open>
  \<^verbatim>\<open>duration_cast<nanoseconds>\<close> from the integral tick counts of the three units the
  class offers; the template \<^verbatim>\<open>setInterval<T>\<close> is the cast for \<open>T\<close> followed by
  \<open>setIntervalChronoNanos\<close>.
\<close>

definition cast_seconds :: "64 word \<Rightarrow> nanoseconds" where
  "cast_seconds s = s * 1000000000"

definition cast_milliseconds :: "64 word \<Rightarrow> nanoseconds" where
  "cast_milliseconds m = m * 1000000"

definition cast_nanoseconds :: "64 word \<Rightarrow> nanoseconds" where
  "cast_nanoseconds n = n"

definition setInterval ::
  "('d \<Rightarrow> nanoseconds) \<Rightarrow> 'd \<Rightarrow> ('x, 'u) Task \<Rightarrow> 'u world \<Rightarrow> ('x, 'u) Task \<times> 'u world" where
  "setInterval cast intervl tk w = setIntervalChronoNanos (cast intervl) tk w"

definition setIntervalSecs ::
  "64 word \<Rightarrow> ('x, 'u) Task \<Rightarrow> 'u world \<Rightarrow> ('x, 'u) Task \<times> 'u world" where
  "setIntervalSecs secs tk w = setInterval cast_seconds secs tk w"

definition setIntervalMillis ::
  "64 word \<Rightarrow> ('x, 'u) Task \<Rightarrow> 'u world \<Rightarrow> ('x, 'u) Task \<times> 'u world" where
  "setIntervalMillis millis tk w = setInterval cast_milliseconds millis tk w"

definition setIntervalNanos ::
  "64 word \<Rightarrow> ('x, 'u) Task \<Rightarrow> 'u world \<Rightarrow> ('x, 'u) Task \<times> 'u world" where
  "setIntervalNanos nanos tk w = setInterval cast_nanoseconds nanos tk w"

text \<open>
  The constructor takes a duration counted in seconds (\<^verbatim>\<open>std::chrono::duration<DurType>\<close>)
  and the callable with its arguments already bound.  It writes \<open>mHasSetInterval\<close> and
  \<open>mTask\<close> and leaves both stamps to \<open>setInterval\<close>, which overwrites them before anything
  reads them; the record needs some value there until then, and \<open>0\<close> stands for it.
\<close>

definition Task_ctor ::
  "64 word \<Rightarrow> ('x, 'u) callable \<Rightarrow> 'u world \<Rightarrow> ('x, 'u) Task \<times> 'u world" where
  "Task_ctor itrvl func w =
     setInterval cast_seconds itrvl
       \<lparr>mHasSetInterval = False, mTask = func, mNextExecStamp = 0, mNanoInterval = 0\<rparr> w"

definition CanExecuteTask ::
  "('x, 'u) Task \<Rightarrow> 'u world \<Rightarrow> bool \<times> ('x, 'u) Task \<times> 'u world" where
  "CanExecuteTask tk w =
     (if mHasSetInterval tk = False then (False, tk, w)
      else
        (case CurrNanoTimeStamp w of
           (currTime, w') \<Rightarrow>
             if currTime <s mNextExecStamp tk then (False, tk, w')
             else (True, tk\<lparr>mNextExecStamp := currTime + mNanoInterval tk\<rparr>, w')))"

text \<open>
  \<open>Update\<close> of a task: the result says whether the callable threw, and carries the
  task and the world as they are when control leaves \<open>Update\<close>.
\<close>

definition Task_Update ::
  "('x, 'u) Task \<Rightarrow> 'u world \<Rightarrow> 'x option \<times> ('x, 'u) Task \<times> 'u world" where
  "Task_Update tk w =
     (case CanExecuteTask tk w of
        (can, tk', w') \<Rightarrow>
          if can = False then (None, tk', w')
          else (case invoke (mTask tk') w' of (r, w'') \<Rightarrow> (r, tk', w'')))"

text \<open>
  The loop that drives a task is the caller's.  \<open>poll_times n\<close> is a caller that calls
  \<open>Update\<close> \<open>n\<close> times in a row and carries on after a callable has thrown.
\<close>

fun poll_times ::
  "nat \<Rightarrow> ('x, 'u) Task \<Rightarrow> 'u world \<Rightarrow> ('x, 'u) Task \<times> 'u world" where
  "poll_times 0 tk w = (tk, w)"
| "poll_times (Suc n) tk w =
     (case Task_Update tk w of (r, tk', w') \<Rightarrow> poll_times n tk' w')"

section \<open>TaskManager\<close>

text \<open>
  A \<^verbatim>\<open>std::unique_ptr<Task>\<close> either is null or owns one task.  The registry is a
  finite map from keys to such handles; \<^verbatim>\<open>operator[]\<close> followed by a move assignment
  stores whatever handle it is given, a null one included.
\<close>

datatype 'a unique_ptr = nullptr | Owns 'a

record ('x, 'u) TaskManager =
  mAllTasks :: "string \<rightharpoonup> ('x, 'u) Task unique_ptr"

text \<open>
  \<open>Add\<close> with a key and a reference to the caller's handle.  The result is the registry
  and the caller's handle after the call: a moved-from \<^verbatim>\<open>unique_ptr\<close> is null.
  (The two overloads without a key make one from the address of the task and call
  this one; addresses are not part of the embedding, and nothing below is about them.)
\<close>

definition TaskManager_Add ::
  "string \<Rightarrow> ('x, 'u) Task unique_ptr \<Rightarrow> ('x, 'u) TaskManager \<Rightarrow>
     ('x, 'u) TaskManager \<times> ('x, 'u) Task unique_ptr" where
  "TaskManager_Add uid tsk mgr =
     (if mAllTasks mgr uid \<noteq> None then (mgr, tsk)
      else (mgr\<lparr>mAllTasks := (mAllTasks mgr)(uid \<mapsto> tsk)\<rparr>, nullptr))"

text \<open>
  The overload taking an rvalue reference binds it to an lvalue reference and calls
  the overload above; the handle it returns is the caller's expiring object.
\<close>

definition TaskManager_Add_rvalue ::
  "string \<Rightarrow> ('x, 'u) Task unique_ptr \<Rightarrow> ('x, 'u) TaskManager \<Rightarrow>
     ('x, 'u) TaskManager \<times> ('x, 'u) Task unique_ptr" where
  "TaskManager_Add_rvalue uid rtsk mgr = TaskManager_Add uid rtsk mgr"

definition TaskManager_Remove ::
  "string \<Rightarrow> ('x, 'u) TaskManager \<Rightarrow> ('x, 'u) TaskManager" where
  "TaskManager_Remove uid mgr =
     (if mAllTasks mgr uid = None then mgr
      else mgr\<lparr>mAllTasks := (mAllTasks mgr)(uid := None)\<rparr>)"

text \<open>
  What can end a sweep early: an exception thrown by a callable, which nothing
  between the callable and the caller of \<open>Update\<close> catches, or the dereference of a
  null handle.
\<close>

datatype 'x abrupt = Thrown 'x | NullDereference

text \<open>
  \<open>Update\<close> of the registry.  A \<^verbatim>\<open>std::unordered_map\<close> is iterated in an order that the
  hash table decides, so the order is an argument: \<open>ks\<close> lists the keys as the range-for
  meets them.  Entries are polled one after the other; the first abrupt end leaves
  the loop with the registry and the world as they are at that point.
\<close>

fun TaskManager_Update ::
  "string list \<Rightarrow> ('x, 'u) TaskManager \<Rightarrow> 'u world \<Rightarrow>
     'x abrupt option \<times> ('x, 'u) TaskManager \<times> 'u world" where
  "TaskManager_Update [] mgr w = (None, mgr, w)"
| "TaskManager_Update (k # ks) mgr w =
     (case mAllTasks mgr k of
        None \<Rightarrow> TaskManager_Update ks mgr w
      | Some nullptr \<Rightarrow> (Some NullDereference, mgr, w\<lparr>trace := trace w @ [Poll k]\<rparr>)
      | Some (Owns tk) \<Rightarrow>
          (case Task_Update tk (w\<lparr>trace := trace w @ [Poll k]\<rparr>) of
             (Some x, tk', w') \<Rightarrow>
               (Some (Thrown x), mgr\<lparr>mAllTasks := (mAllTasks mgr)(k \<mapsto> Owns tk')\<rparr>, w')
           | (None, tk', w') \<Rightarrow>
               TaskManager_Update ks (mgr\<lparr>mAllTasks := (mAllTasks mgr)(k \<mapsto> Owns tk')\<rparr>) w'))"

text \<open>\<open>ks\<close> is an iteration order of the registry: every key it holds, once.\<close>

definition iteration_order :: "string list \<Rightarrow> ('x, 'u) TaskManager \<Rightarrow> bool" where
  "iteration_order ks mgr \<longleftrightarrow> distinct ks \<and> set ks = dom (mAllTasks mgr)"

section \<open>Observing a sweep\<close>

text \<open>
  A task is due at a reading \<open>now\<close> of the clock when its interval has been set and its
  stamp is not after \<open>now\<close>: the condition under which \<open>CanExecuteTask\<close> answers true.
\<close>

definition due :: "('x, 'u) Task \<Rightarrow> nanoseconds \<Rightarrow> bool" where
  "due tk now \<longleftrightarrow> mHasSetInterval tk \<and> mNextExecStamp tk \<le>s now"

text \<open>
  What a sweep over the keys \<open>ks\<close> adds to the trace when nothing ends it early, told
  entry by entry from the registry as it is before the sweep: every entry is polled,
  an entry that is due at its own reading of the clock fires once after its poll, and
  only a task whose interval is set takes a reading.
\<close>

fun sweep_events ::
  "(nat \<Rightarrow> nanoseconds) \<Rightarrow> nat \<Rightarrow> ('x, 'u) TaskManager \<Rightarrow> string list \<Rightarrow> event list" where
  "sweep_events clk n mgr [] = []"
| "sweep_events clk n mgr (k # ks) =
     (case mAllTasks mgr k of
        Some (Owns tk) \<Rightarrow>
          Poll k # (if due tk (clk n) then [Fire (ident (mTask tk))] else [])
            @ sweep_events clk (if mHasSetInterval tk then Suc n else n) mgr ks
      | _ \<Rightarrow> sweep_events clk n mgr ks)"

text \<open>The keys polled in a trace, in the order of the polls.\<close>

fun polled :: "event list \<Rightarrow> string list" where
  "polled [] = []"
| "polled (Poll k # es) = k # polled es"
| "polled (Fire c # es) = polled es"

text \<open>No entry of the registry is a null handle; no callable of the registry throws.\<close>

definition no_null_handle :: "('x, 'u) TaskManager \<Rightarrow> bool" where
  "no_null_handle mgr \<longleftrightarrow> (\<forall>k. mAllTasks mgr k \<noteq> Some nullptr)"

definition never_throws :: "('x, 'u) TaskManager \<Rightarrow> bool" where
  "never_throws mgr \<longleftrightarrow>
     (\<forall>k tk u. mAllTasks mgr k = Some (Owns tk) \<longrightarrow> fst (body (mTask tk) u) = None)"

section \<open>Example inputs\<close>

text \<open>
  A caller whose state is a counter, a callable that increments it and two callables
  that throw; a clock that advances by 0.4 seconds from one reading to the next, and a
  clock that stops advancing after its third reading.
\<close>

definition tick :: "(nat, nat) callable" where
  "tick = \<lparr>ident = 7, body = (\<lambda>u. (None, Suc u))\<rparr>"

definition boom :: "(nat, nat) callable" where
  "boom = \<lparr>ident = 8, body = (\<lambda>u. (Some 13, u))\<rparr>"

definition boom2 :: "(nat, nat) callable" where
  "boom2 = \<lparr>ident = 9, body = (\<lambda>u. (Some 14, u))\<rparr>"

definition w_a :: "nat world" where
  "w_a = \<lparr>clock = (\<lambda>n. 400000000 * of_nat n), reads = 0, trace = [], user = 0\<rparr>"

definition w_step :: "nat world" where
  "w_step = \<lparr>clock = (\<lambda>n. if n = 0 then 10 else if n = 1 then 20 else 30),
     reads = 0, trace = [], user = 0\<rparr>"

definition tk_a :: "(nat, nat) Task" where
  "tk_a = \<lparr>mHasSetInterval = True, mTask = tick, mNextExecStamp = 1000000000,
     mNanoInterval = 1000000000\<rparr>"

text \<open>
  A timer of 9223372036 seconds, as its constructor leaves it when the clock reads 1.2
  seconds: the interval fits into 64 bits, the sum of reading and interval does not.
\<close>

definition tk_far :: "(nat, nat) Task" where
  "tk_far = \<lparr>mHasSetInterval = True, mTask = tick, mNextExecStamp = 9223372037200000000,
     mNanoInterval = 9223372036000000000\<rparr>"

definition tk_off :: "(nat, nat) Task" where
  "tk_off = \<lparr>mHasSetInterval = False, mTask = tick, mNextExecStamp = 0, mNanoInterval = 0\<rparr>"

definition tk_boom :: "(nat, nat) Task" where
  "tk_boom = \<lparr>mHasSetInterval = True, mTask = boom, mNextExecStamp = 0,
     mNanoInterval = 1000000000\<rparr>"

definition tk_boom2 :: "(nat, nat) Task" where
  "tk_boom2 = \<lparr>mHasSetInterval = True, mTask = boom2, mNextExecStamp = 0,
     mNanoInterval = 1000000000\<rparr>"

definition mgr_quiet :: "(nat, nat) TaskManager" where
  "mgr_quiet = \<lparr>mAllTasks = [''a'' \<mapsto> Owns tk_a, ''b'' \<mapsto> Owns tk_off]\<rparr>"

definition mgr_boom :: "(nat, nat) TaskManager" where
  "mgr_boom = \<lparr>mAllTasks = [''a'' \<mapsto> Owns tk_boom, ''b'' \<mapsto> Owns tk_boom2]\<rparr>"

definition mgr_mixed :: "(nat, nat) TaskManager" where
  "mgr_mixed =
     \<lparr>mAllTasks = [''a'' \<mapsto> Owns tk_boom, ''b'' \<mapsto> Owns tk_a, ''c'' \<mapsto> Owns tk_off]\<rparr>"

section \<open>Facts about stamps and single polls\<close>

text \<open>
  Machine addition of stamps is the mathematical sum whenever that sum fits into 64
  bits, and then a signed comparison with the sum is the comparison of the integers.
\<close>

lemma sint_stamp_plus:
  fixes a b :: nanoseconds
  assumes "- (2 ^ 63) \<le> sint a + sint b" and "sint a + sint b < 2 ^ 63"
  shows "sint (a + b) = sint a + sint b"
  using assms by (simp add: sint_word_ariths signed_take_bit_int_eq_self)

lemma before_deadline_iff:
  fixes now t0 I :: nanoseconds
  assumes "- (2 ^ 63) \<le> sint t0 + sint I" and "sint t0 + sint I < 2 ^ 63"
  shows "now <s t0 + I \<longleftrightarrow> sint now < sint t0 + sint I"
  using sint_stamp_plus [OF assms] by (simp add: word_sless_alt)

lemmas run_defs = Task_Update_def CanExecuteTask_def CurrNanoTimeStamp_def invoke_def
  setIntervalChronoNanos_def OnIntervalChanged_def

lemmas example_defs = tick_def boom_def boom2_def w_a_def w_step_def tk_a_def tk_far_def tk_off_def
  tk_boom_def tk_boom2_def mgr_quiet_def mgr_boom_def mgr_mixed_def

lemma CanExecuteTask_due:
  "fst (CanExecuteTask tk w) = due tk (clock w (reads w))"
  by (auto simp: CanExecuteTask_def CurrNanoTimeStamp_def due_def signed.not_le)

lemma Task_Update_disarmed:
  "\<not> mHasSetInterval tk \<Longrightarrow> Task_Update tk w = (None, tk, w)"
  by (simp add: Task_Update_def CanExecuteTask_def)

lemma Task_Update_early:
  "mHasSetInterval tk \<Longrightarrow> clock w (reads w) <s mNextExecStamp tk \<Longrightarrow>
   Task_Update tk w = (None, tk, w\<lparr>reads := Suc (reads w)\<rparr>)"
  by (simp add: Task_Update_def CanExecuteTask_def CurrNanoTimeStamp_def)

lemma Task_Update_due:
  "mHasSetInterval tk \<Longrightarrow> \<not> clock w (reads w) <s mNextExecStamp tk \<Longrightarrow>
   Task_Update tk w =
     (fst (body (mTask tk) (user w)),
      tk\<lparr>mNextExecStamp := clock w (reads w) + mNanoInterval tk\<rparr>,
      w\<lparr>reads := Suc (reads w),
        trace := trace w @ [Fire (ident (mTask tk))],
        user := snd (body (mTask tk) (user w))\<rparr>)"
  by (simp add: Task_Update_def CanExecuteTask_def CurrNanoTimeStamp_def invoke_def
      split: prod.split)

lemma Task_ctor_eq:
  "Task_ctor itrvl func w =
     (\<lparr>mHasSetInterval = True, mTask = func,
       mNextExecStamp = clock w (reads w) + cast_seconds itrvl,
       mNanoInterval = cast_seconds itrvl\<rparr>,
      w\<lparr>reads := Suc (reads w)\<rparr>)"
  by (simp add: Task_ctor_def setInterval_def setIntervalChronoNanos_def
      OnIntervalChanged_def CurrNanoTimeStamp_def)

lemma setInterval_units:
  "setIntervalSecs secs tk w = setIntervalChronoNanos (secs * 1000000000) tk w"
  "setIntervalMillis millis tk w = setIntervalChronoNanos (millis * 1000000) tk w"
  "setIntervalNanos nanos tk w = setIntervalChronoNanos nanos tk w"
  by (simp_all add: setIntervalSecs_def setIntervalMillis_def setIntervalNanos_def
      setInterval_def cast_seconds_def cast_milliseconds_def cast_nanoseconds_def)

lemma poll_times_early:
  "mHasSetInterval tk \<Longrightarrow> \<forall>i<n. clock w (reads w + i) <s mNextExecStamp tk \<Longrightarrow>
   poll_times n tk w = (tk, w\<lparr>reads := reads w + n\<rparr>)"
proof (induction n arbitrary: w)
  case 0
  then show ?case by simp
next
  case (Suc n)
  from Suc.prems(2) have now: "clock w (reads w) <s mNextExecStamp tk"
    by (auto dest: spec [of _ 0])
  let ?w = "w\<lparr>reads := Suc (reads w)\<rparr>"
  have "\<forall>i<n. clock ?w (reads ?w + i) <s mNextExecStamp tk"
  proof (intro allI impI)
    fix i assume "i < n"
    then have "Suc i < Suc n" by simp
    with Suc.prems(2) have "clock w (reads w + Suc i) <s mNextExecStamp tk" by blast
    then show "clock ?w (reads ?w + i) <s mNextExecStamp tk" by simp
  qed
  with Suc.IH [of ?w] Suc.prems(1)
  have "poll_times n tk ?w = (tk, ?w\<lparr>reads := reads ?w + n\<rparr>)" by simp
  with now Suc.prems(1) show ?case
    by (simp add: Task_Update_early)
qed

lemma all_less_2: "(\<forall>i<2::nat. P i) \<longleftrightarrow> P 0 \<and> P 1"
  by (auto simp: less_2_cases_iff)

section \<open>Properties of Task\<close>

text \<open>
  The constructor and the polls that follow it, in the arithmetic of the machine: the
  stamp is the 64-bit sum of the reading \<open>t0\<close> and the interval \<open>I\<close>, and the polls are
  compared with that sum.
\<close>

lemma Task_fire_timing_machine:
  assumes ctor: "Task_ctor itrvl func w = (tk, w1)"
    and early: "\<forall>i<n. clock w (reads w1 + i) <s clock w (reads w) + cast_seconds itrvl"
    and due: "clock w (reads w) + cast_seconds itrvl \<le>s clock w (reads w1 + n)"
    and upd: "Task_Update tk (w1\<lparr>reads := reads w1 + n\<rparr>) = (r, tk', w')"
  shows "mNextExecStamp tk = clock w (reads w) + cast_seconds itrvl \<and>
         trace w1 = trace w \<and>
         poll_times n tk w1 = (tk, w1\<lparr>reads := reads w1 + n\<rparr>) \<and>
         trace w' = trace w @ [Fire (ident func)]"
proof -
  from ctor have tk: "tk = \<lparr>mHasSetInterval = True, mTask = func,
       mNextExecStamp = clock w (reads w) + cast_seconds itrvl,
       mNanoInterval = cast_seconds itrvl\<rparr>"
    and w1: "w1 = w\<lparr>reads := Suc (reads w)\<rparr>"
    by (simp_all add: Task_ctor_eq)
  have armed: "mHasSetInterval tk"
    and stamp: "mNextExecStamp tk = clock w (reads w) + cast_seconds itrvl"
    and f: "mTask tk = func"
    by (simp_all add: tk)
  have clk: "clock w1 = clock w" and tr: "trace w1 = trace w" by (simp_all add: w1)
  from early have "\<forall>i<n. clock w1 (reads w1 + i) <s mNextExecStamp tk"
    by (simp add: clk stamp)
  with armed have polls: "poll_times n tk w1 = (tk, w1\<lparr>reads := reads w1 + n\<rparr>)"
    by (rule poll_times_early)
  let ?w = "w1\<lparr>reads := reads w1 + n\<rparr>"
  from due have "\<not> clock ?w (reads ?w) <s mNextExecStamp tk"
    by (simp add: clk stamp signed.not_less)
  with armed have "Task_Update tk ?w =
     (fst (body (mTask tk) (user ?w)),
      tk\<lparr>mNextExecStamp := clock ?w (reads ?w) + mNanoInterval tk\<rparr>,
      ?w\<lparr>reads := Suc (reads ?w),
        trace := trace ?w @ [Fire (ident (mTask tk))],
        user := snd (body (mTask tk) (user ?w))\<rparr>)"
    by (rule Task_Update_due)
  with upd have "trace w' = trace w @ [Fire (ident func)]"
    by (auto simp: f tr)
  with stamp tr polls show ?thesis by simp
qed

text \<open>
  C1 (fire timing), as the code has it.  A timer is constructed with an interval of
  \<open>itrvl\<close> seconds when the clock reads \<open>t0 = clock w (reads w)\<close>; the interval it stores
  is \<open>I = cast_seconds itrvl\<close>.  Provided the sum of \<open>t0\<close> and \<open>I\<close> as integers fits into
  the signed 64-bit count of nanoseconds: if each of the next \<open>n\<close> calls of \<open>Update\<close>
  reads a time strictly before \<open>t0 + I\<close>, none of them invokes the callable and the
  timer is the same after them (only the count of clock readings has changed); the
  first call that reads a time at or after \<open>t0 + I\<close> invokes the callable exactly
  once: it appends one \<open>Fire\<close> of the bound callable to the trace, which the
  constructor and the earlier calls left as it was.  Times and their sum are integers
  here (\<open>sint\<close>), not machine words.
\<close>

theorem Task_fire_timing:
  assumes ctor: "Task_ctor itrvl func w = (tk, w1)"
    and fits: "- (2 ^ 63) \<le> sint (clock w (reads w)) + sint (cast_seconds itrvl)"
      "sint (clock w (reads w)) + sint (cast_seconds itrvl) < 2 ^ 63"
    and early: "\<forall>i<n. sint (clock w (reads w1 + i))
        < sint (clock w (reads w)) + sint (cast_seconds itrvl)"
    and due: "sint (clock w (reads w)) + sint (cast_seconds itrvl)
        \<le> sint (clock w (reads w1 + n))"
    and upd: "Task_Update tk (w1\<lparr>reads := reads w1 + n\<rparr>) = (r, tk', w')"
  shows "sint (mNextExecStamp tk) = sint (clock w (reads w)) + sint (cast_seconds itrvl) \<and>
         trace w1 = trace w \<and>
         poll_times n tk w1 = (tk, w1\<lparr>reads := reads w1 + n\<rparr>) \<and>
         trace w' = trace w @ [Fire (ident func)]"
proof -
  note sum = sint_stamp_plus [OF fits]
  from early
  have e: "\<forall>i<n. clock w (reads w1 + i) <s clock w (reads w) + cast_seconds itrvl"
    by (simp add: before_deadline_iff [OF fits])
  from due have d: "clock w (reads w) + cast_seconds itrvl \<le>s clock w (reads w1 + n)"
    by (simp add: word_sle_eq sum)
  from Task_fire_timing_machine [OF ctor e d upd] sum show ?thesis by simp
qed

text \<open>
  A timer of one second constructed at reading 0 of a clock that advances by 0.4
  seconds: the polls at 0.4 and 0.8 seconds change nothing, the poll at 1.2 seconds
  fires once.
\<close>

theorem Task_fire_timing_witness:
  "Task_ctor 1 tick w_a = (tk_a, w_a\<lparr>reads := 1\<rparr>) \<and>
   sint (clock w_a 0) + sint (cast_seconds 1) = 1000000000 \<and>
   poll_times 2 tk_a (w_a\<lparr>reads := 1\<rparr>) = (tk_a, w_a\<lparr>reads := 3\<rparr>) \<and>
   Task_Update tk_a (w_a\<lparr>reads := 3\<rparr>) =
     (None, tk_a\<lparr>mNextExecStamp := 2200000000\<rparr>,
      w_a\<lparr>reads := 4, trace := [Fire 7], user := 1\<rparr>)"
proof -
  let ?w1 = "w_a\<lparr>reads := 1\<rparr>"
  have c: "Task_ctor 1 tick w_a = (tk_a, ?w1)"
    by (simp add: Task_ctor_eq w_a_def tk_a_def cast_seconds_def)
  have s: "sint (clock w_a (reads w_a)) + sint (cast_seconds 1) = 1000000000"
    by (simp add: w_a_def cast_seconds_def)
  have f1: "- (2 ^ 63) \<le> sint (clock w_a (reads w_a)) + sint (cast_seconds 1)"
    and f2: "sint (clock w_a (reads w_a)) + sint (cast_seconds 1) < 2 ^ 63"
    by (simp_all add: s)
  have e: "\<forall>i<2. sint (clock w_a (reads ?w1 + i))
      < sint (clock w_a (reads w_a)) + sint (cast_seconds 1)"
    by (simp add: s) (simp add: w_a_def all_less_2)
  have d: "sint (clock w_a (reads w_a)) + sint (cast_seconds 1)
      \<le> sint (clock w_a (reads ?w1 + 2))"
    by (simp add: s) (simp add: w_a_def)
  have u: "Task_Update tk_a (?w1\<lparr>reads := reads ?w1 + 2\<rparr>) =
     (None, tk_a\<lparr>mNextExecStamp := 2200000000\<rparr>,
      w_a\<lparr>reads := 4, trace := [Fire 7], user := 1\<rparr>)"
    by (simp add: run_defs w_a_def tk_a_def tick_def)
  have s0: "sint (clock w_a 0) + sint (cast_seconds 1) = 1000000000"
    using s by (simp add: w_a_def)
  from Task_fire_timing [OF c f1 f2 e d u] c u s0 show ?thesis
    by (simp add: w_a_def eval_nat_numeral)
qed

text \<open>
  C1 as it is stated, for every interval, fails.  The timer \<open>tk_far\<close> is constructed
  with a positive interval of 9223372036 seconds when the clock reads 1.2 seconds.
  The interval is stored exactly, but the sum of reading and interval leaves the
  signed 64-bit range and the stamp is negative.  The next poll, at 1.6 seconds, is
  strictly before \<open>t0 + I\<close> and yet invokes the callable.
\<close>

theorem Task_fire_timing_counterexample:
  "Task_ctor 9223372036 tick (w_a\<lparr>reads := 3\<rparr>) = (tk_far, w_a\<lparr>reads := 4\<rparr>) \<and>
   sint (clock w_a 3) = 1200000000 \<and>
   sint (mNanoInterval tk_far) = 9223372036000000000 \<and>
   sint (clock w_a 4) = 1600000000 \<and>
   sint (clock w_a 4) < sint (clock w_a 3) + sint (mNanoInterval tk_far) \<and>
   sint (mNextExecStamp tk_far) < 0 \<and>
   fst (Task_Update tk_far (w_a\<lparr>reads := 4\<rparr>)) = None \<and>
   trace (snd (snd (Task_Update tk_far (w_a\<lparr>reads := 4\<rparr>)))) = [Fire 7]"
  by (simp add: Task_ctor_eq run_defs w_a_def tk_far_def tick_def cast_seconds_def
      word_sless_alt)





text \<open>
  C6 (a disarmed timer never fires).  On a timer whose \<open>mHasSetInterval\<close> is false, any
  number of calls of \<open>Update\<close> leaves the timer and the whole world as they were: no
  callable is invoked, and the clock is not even read.
\<close>

theorem disarmed_never_fires:
  "\<not> mHasSetInterval tk \<Longrightarrow> poll_times n tk w = (tk, w)"
  by (induction n) (simp_all add: Task_Update_disarmed)

theorem disarmed_never_fires_witness:
  "\<not> mHasSetInterval tk_off \<and> poll_times 5 tk_off w_a = (tk_off, w_a)"
proof -
  have d: "\<not> mHasSetInterval tk_off" by (simp add: tk_off_def)
  from disarmed_never_fires [OF d, of 5 w_a] d show ?thesis by simp
qed




section \<open>Properties of TaskManager\<close>

lemma TaskManager_Update_frame:
  "k \<notin> set ks \<Longrightarrow> TaskManager_Update ks mgr w = (r, mgr', w') \<Longrightarrow>
   mAllTasks mgr' k = mAllTasks mgr k"
proof (induction ks arbitrary: mgr w)
  case Nil
  then show ?case by simp
next
  case (Cons a ks)
  then show ?case
    by (fastforce split: option.splits unique_ptr.splits prod.splits)
qed

lemma TaskManager_Update_append:
  "TaskManager_Update (pre @ post) mgr w =
     (case TaskManager_Update pre mgr w of
        (None, mgr1, w1) \<Rightarrow> TaskManager_Update post mgr1 w1
      | (Some a, mgr1, w1) \<Rightarrow> (Some a, mgr1, w1))"
  by (induction pre arbitrary: mgr w)
    (auto split: option.splits unique_ptr.splits prod.splits)

lemma sweep_events_cong:
  "\<forall>k\<in>set ks. mAllTasks m1 k = mAllTasks m2 k \<Longrightarrow>
   sweep_events clk n m1 ks = sweep_events clk n m2 ks"
  by (induction ks arbitrary: n) (auto split: option.splits unique_ptr.splits)

lemma polled_append: "polled (xs @ ys) = polled xs @ polled ys"
  by (induction xs rule: polled.induct) auto

lemma polled_sweep_events:
  "\<forall>k\<in>set ks. \<exists>tk. mAllTasks mgr k = Some (Owns tk) \<Longrightarrow>
   polled (sweep_events clk n mgr ks) = ks"
  by (induction ks arbitrary: n) (auto simp: polled_append)

text \<open>One poll of a sweep, for a callable that does not throw.\<close>

lemma Task_Update_quiet:
  assumes upd: "Task_Update tk (w\<lparr>trace := trace w @ [Poll k]\<rparr>) = (r, tk', w1)"
    and quiet: "\<And>u. fst (body (mTask tk) u) = None"
  shows "r = None"
    and "trace w1 = trace w @ Poll k #
      (if due tk (clock w (reads w)) then [Fire (ident (mTask tk))] else [])"
    and "reads w1 = (if mHasSetInterval tk then Suc (reads w) else reads w)"
    and "clock w1 = clock w"
proof -
  let ?w = "w\<lparr>trace := trace w @ [Poll k]\<rparr>"
  consider "\<not> mHasSetInterval tk"
    | "mHasSetInterval tk" "clock ?w (reads ?w) <s mNextExecStamp tk"
    | "mHasSetInterval tk" "\<not> clock ?w (reads ?w) <s mNextExecStamp tk"
    by blast
  then have "r = None \<and> trace w1 = trace w @ Poll k #
      (if due tk (clock w (reads w)) then [Fire (ident (mTask tk))] else []) \<and>
    reads w1 = (if mHasSetInterval tk then Suc (reads w) else reads w) \<and>
    clock w1 = clock w"
  proof cases
    case 1
    from Task_Update_disarmed [OF 1, of ?w] upd show ?thesis
      by (auto simp: due_def 1)
  next
    case 2
    from Task_Update_early [OF 2] upd 2 show ?thesis
      by (auto simp: due_def signed.not_le)
  next
    case 3
    from Task_Update_due [OF 3] upd 3 quiet show ?thesis
      by (auto simp: due_def signed.not_less)
  qed
  then show "r = None" and "trace w1 = trace w @ Poll k #
      (if due tk (clock w (reads w)) then [Fire (ident (mTask tk))] else [])"
    and "reads w1 = (if mHasSetInterval tk then Suc (reads w) else reads w)"
    and "clock w1 = clock w" by simp_all
qed

lemma TaskManager_Update_normal:
  assumes "distinct ks"
    and "\<forall>k\<in>set ks. \<exists>tk. mAllTasks mgr k = Some (Owns tk) \<and>
           (\<forall>u. fst (body (mTask tk) u) = None)"
  shows "\<exists>mgr' w'. TaskManager_Update ks mgr w = (None, mgr', w') \<and>
           trace w' = trace w @ sweep_events (clock w) (reads w) mgr ks \<and>
           dom (mAllTasks mgr') = dom (mAllTasks mgr)"
  using assms
proof (induction ks arbitrary: mgr w)
  case Nil
  then show ?case by simp
next
  case (Cons k ks)
  from Cons.prems(2) obtain tk where tk: "mAllTasks mgr k = Some (Owns tk)"
    and quiet: "\<And>u. fst (body (mTask tk) u) = None" by auto
  let ?w = "w\<lparr>trace := trace w @ [Poll k]\<rparr>"
  obtain r tk' w1 where upd: "Task_Update tk ?w = (r, tk', w1)"
    using prod_cases3 by blast
  note one = Task_Update_quiet [OF upd quiet]
  let ?mgr = "mgr\<lparr>mAllTasks := (mAllTasks mgr)(k \<mapsto> Owns tk')\<rparr>"
  from Cons.prems have k: "k \<notin> set ks" and d: "distinct ks" by simp_all
  have same: "\<forall>k'\<in>set ks. mAllTasks ?mgr k' = mAllTasks mgr k'" using k by auto
  with Cons.prems(2)
  have "\<forall>k'\<in>set ks. \<exists>tk. mAllTasks ?mgr k' = Some (Owns tk) \<and>
      (\<forall>u. fst (body (mTask tk) u) = None)"
    by simp
  from Cons.IH [OF d this, of w1] obtain mgr' w' where
    rest: "TaskManager_Update ks ?mgr w1 = (None, mgr', w')"
      "trace w' = trace w1 @ sweep_events (clock w1) (reads w1) ?mgr ks"
      "dom (mAllTasks mgr') = dom (mAllTasks ?mgr)" by blast
  have ev: "sweep_events (clock w1) (reads w1) ?mgr ks = sweep_events (clock w) (reads w1) mgr ks"
    using sweep_events_cong [OF same] by (simp add: one(4))
  have "TaskManager_Update (k # ks) mgr w = (None, mgr', w')"
    using tk upd one(1) rest(1) by simp
  moreover have "trace w' = trace w @ sweep_events (clock w) (reads w) mgr (k # ks)"
    using tk rest(2) ev one(2,3) by simp
  moreover have "dom (mAllTasks mgr') = dom (mAllTasks mgr)"
    using rest(3) tk by auto
  ultimately show ?case by blast
qed

text \<open>
  C4 (registry fan-out), as the code has it.  Take a registry in which every entry
  owns a task and no callable throws, and any order \<open>ks\<close> in which the container may be
  iterated.  Then \<open>Update\<close> returns normally, the keys it polls are exactly \<open>ks\<close> (every
  owned timer once, whichever order that is), and the trace grows by \<open>sweep_events\<close>:
  after its poll, a timer that is due at the reading it takes has its callable invoked
  once, and a timer that is not due is not invoked.  The registry holds the same keys
  afterwards.
\<close>

theorem TaskManager_Update_fan_out:
  assumes "iteration_order ks mgr" and "no_null_handle mgr" and "never_throws mgr"
  shows "\<exists>mgr' w'. TaskManager_Update ks mgr w = (None, mgr', w') \<and>
           trace w' = trace w @ sweep_events (clock w) (reads w) mgr ks \<and>
           polled (sweep_events (clock w) (reads w) mgr ks) = ks \<and>
           dom (mAllTasks mgr') = dom (mAllTasks mgr)"
proof -
  have own: "\<exists>tk. mAllTasks mgr k = Some (Owns tk)" if "k \<in> set ks" for k
  proof -
    from that assms(1) obtain p where p: "mAllTasks mgr k = Some p"
      by (auto simp: iteration_order_def)
    with assms(2) have "p \<noteq> nullptr" by (auto simp: no_null_handle_def)
    with p show ?thesis by (cases p) auto
  qed
  then have "\<forall>k\<in>set ks. \<exists>tk. mAllTasks mgr k = Some (Owns tk) \<and>
      (\<forall>u. fst (body (mTask tk) u) = None)"
    using assms(3) by (fastforce simp: never_throws_def)
  moreover from assms(1) have "distinct ks" by (simp add: iteration_order_def)
  ultimately obtain mgr' w' where "TaskManager_Update ks mgr w = (None, mgr', w')"
    "trace w' = trace w @ sweep_events (clock w) (reads w) mgr ks"
    "dom (mAllTasks mgr') = dom (mAllTasks mgr)"
    using TaskManager_Update_normal by blast
  moreover have "polled (sweep_events (clock w) (reads w) mgr ks) = ks"
    using own by (intro polled_sweep_events) blast
  ultimately show ?thesis by blast
qed

text \<open>
  A registry with the timer of one second under \<open>a\<close> and a disarmed timer under \<open>b\<close>,
  swept at 1.2 seconds in the order \<open>b\<close>, \<open>a\<close>: both are polled, \<open>a\<close> fires.
\<close>

theorem TaskManager_Update_fan_out_witness:
  "iteration_order [''b'', ''a''] mgr_quiet \<and> no_null_handle mgr_quiet \<and>
   never_throws mgr_quiet \<and>
   fst (TaskManager_Update [''b'', ''a''] mgr_quiet (w_a\<lparr>reads := 3\<rparr>)) = None \<and>
   trace (snd (snd (TaskManager_Update [''b'', ''a''] mgr_quiet (w_a\<lparr>reads := 3\<rparr>)))) =
     [Poll ''b'', Poll ''a'', Fire 7]"
proof -
  have i: "iteration_order [''b'', ''a''] mgr_quiet"
    by (auto simp: iteration_order_def mgr_quiet_def)
  have n: "no_null_handle mgr_quiet"
    by (simp add: no_null_handle_def mgr_quiet_def)
  have t: "never_throws mgr_quiet"
    by (auto simp: never_throws_def mgr_quiet_def tk_a_def tk_off_def tick_def split: if_splits)
  have e: "sweep_events (clock (w_a\<lparr>reads := 3\<rparr>)) (reads (w_a\<lparr>reads := 3\<rparr>)) mgr_quiet
      [''b'', ''a''] = [Poll ''b'', Poll ''a'', Fire 7]"
    by (simp add: mgr_quiet_def w_a_def tk_a_def tk_off_def tick_def due_def)
  from TaskManager_Update_fan_out [OF i n t, of "w_a\<lparr>reads := 3\<rparr>"] e i n t
  show ?thesis by (auto simp: w_a_def)
qed

text \<open>
  C4 as it is stated, for every registry, fails.  The registry \<open>mgr_boom\<close> owns two
  timers, both armed and due, whose callables throw.  In either order of iteration
  the sweep ends with the exception of the first one, and the other timer, owned and
  due, is neither polled nor fired.
\<close>

theorem TaskManager_Update_fan_out_counterexample:
  "iteration_order [''a'', ''b''] mgr_boom \<and> iteration_order [''b'', ''a''] mgr_boom \<and>
   mAllTasks mgr_boom ''a'' = Some (Owns tk_boom) \<and> due tk_boom (clock w_a 0) \<and>
   mAllTasks mgr_boom ''b'' = Some (Owns tk_boom2) \<and> due tk_boom2 (clock w_a 0) \<and>
   fst (TaskManager_Update [''a'', ''b''] mgr_boom w_a) = Some (Thrown 13) \<and>
   trace (snd (snd (TaskManager_Update [''a'', ''b''] mgr_boom w_a))) = [Poll ''a'', Fire 8] \<and>
   fst (TaskManager_Update [''b'', ''a''] mgr_boom w_a) = Some (Thrown 14) \<and>
   trace (snd (snd (TaskManager_Update [''b'', ''a''] mgr_boom w_a))) = [Poll ''b'', Fire 9]"
  by (auto simp add: iteration_order_def mgr_boom_def w_a_def due_def tk_boom_def tk_boom2_def
      boom_def boom2_def Task_Update_def CanExecuteTask_def CurrNanoTimeStamp_def invoke_def)

text \<open>
  C5 (duplicate key).  \<open>Add\<close> under a key that is present leaves the registry as it
  was: the entry under the key is the one that was there, with its callable, interval
  and stamp, the incoming handle is not stored, and every later sweep runs as it would
  have run without the call.
\<close>

theorem TaskManager_Add_duplicate_key:
  assumes "mAllTasks mgr uid = Some p"
  shows "fst (TaskManager_Add uid tsk mgr) = mgr \<and>
         mAllTasks (fst (TaskManager_Add uid tsk mgr)) uid = Some p \<and>
         TaskManager_Update ks (fst (TaskManager_Add uid tsk mgr)) w =
           TaskManager_Update ks mgr w"
  using assms by (simp add: TaskManager_Add_def)

theorem TaskManager_Add_duplicate_key_witness:
  "mAllTasks mgr_quiet ''a'' = Some (Owns tk_a) \<and>
   fst (TaskManager_Add ''a'' (Owns tk_boom) mgr_quiet) = mgr_quiet \<and>
   mAllTasks (fst (TaskManager_Add ''a'' (Owns tk_boom) mgr_quiet)) ''a'' = Some (Owns tk_a)"
proof -
  have p: "mAllTasks mgr_quiet ''a'' = Some (Owns tk_a)" by (simp add: mgr_quiet_def)
  from TaskManager_Add_duplicate_key [OF p, of "Owns tk_boom"] p show ?thesis by simp
qed

text \<open>What \<open>Add\<close> does under a key that is free: the handle is stored and the caller's is null.\<close>

lemma TaskManager_Add_fresh_key:
  "mAllTasks mgr uid = None \<Longrightarrow>
   TaskManager_Add uid tsk mgr = (mgr\<lparr>mAllTasks := (mAllTasks mgr)(uid \<mapsto> tsk)\<rparr>, nullptr)"
  by (simp add: TaskManager_Add_def)

text \<open>
  C10 (ownership after a rejected \<open>Add\<close>).  When the key is present, both overloads of
  \<open>Add\<close> that take a key return before anything is moved: the caller's handle is what
  it was, still owning its timer, and the registry is unchanged.
\<close>

theorem TaskManager_Add_rejected_keeps_handle:
  assumes "mAllTasks mgr uid \<noteq> None"
  shows "TaskManager_Add uid tsk mgr = (mgr, tsk) \<and>
         TaskManager_Add_rvalue uid tsk mgr = (mgr, tsk)"
  using assms by (simp add: TaskManager_Add_rvalue_def TaskManager_Add_def)

theorem TaskManager_Add_rejected_keeps_handle_witness:
  "mAllTasks mgr_quiet ''a'' \<noteq> None \<and>
   TaskManager_Add ''a'' (Owns tk_boom) mgr_quiet = (mgr_quiet, Owns tk_boom) \<and>
   TaskManager_Add_rvalue ''a'' (Owns tk_boom) mgr_quiet = (mgr_quiet, Owns tk_boom)"
proof -
  have p: "mAllTasks mgr_quiet ''a'' \<noteq> None" by (simp add: mgr_quiet_def)
  from TaskManager_Add_rejected_keeps_handle [OF p, of "Owns tk_boom"] p show ?thesis by simp
qed

text \<open>
  C7 (removal).  \<open>Remove\<close> returns a registry and nothing else; it cannot fail.  The
  map it leaves is the old one without the key: the entry under the key, and the timer
  it owned, are gone and all other entries are as before.  When the key is absent the
  registry is unchanged, and removing a key twice is removing it once.
\<close>

theorem TaskManager_Remove_idempotent:
  "mAllTasks (TaskManager_Remove uid mgr) = (mAllTasks mgr)(uid := None) \<and>
   (mAllTasks mgr uid = None \<longrightarrow> TaskManager_Remove uid mgr = mgr) \<and>
   TaskManager_Remove uid (TaskManager_Remove uid mgr) = TaskManager_Remove uid mgr"
  by (auto simp: TaskManager_Remove_def fun_upd_idem)

theorem TaskManager_Remove_idempotent_witness:
  "mAllTasks mgr_quiet ''z'' = None \<and> TaskManager_Remove ''z'' mgr_quiet = mgr_quiet \<and>
   mAllTasks (TaskManager_Remove ''a'' mgr_quiet) = [''b'' \<mapsto> Owns tk_off] \<and>
   TaskManager_Remove ''a'' (TaskManager_Remove ''a'' mgr_quiet) =
     TaskManager_Remove ''a'' mgr_quiet"
proof -
  have z: "mAllTasks mgr_quiet ''z'' = None" by (simp add: mgr_quiet_def)
  have "(mAllTasks mgr_quiet)(''a'' := None) = [''b'' \<mapsto> Owns tk_off]"
    by (auto simp: mgr_quiet_def)
  with TaskManager_Remove_idempotent [where mgr = mgr_quiet and uid = "''z''"]
    TaskManager_Remove_idempotent [where mgr = mgr_quiet and uid = "''a''"] z
  show ?thesis by simp
qed

text \<open>
  C9 (a callable throws during a sweep).  Let the entries \<open>pre\<close> that the iteration
  meets first be polled without an early end, and let the next entry \<open>k\<close> own a timer
  that is due and whose callable throws \<open>x\<close>.  Then \<open>Update\<close> of the timer ends with
  \<open>x\<close>, and \<open>Update\<close> of the registry ends with the same \<open>x\<close>, whatever entries \<open>post\<close>
  remain: the trace ends with the poll of \<open>k\<close> and the invocation of its callable, no
  remaining entry is polled, and the remaining timers are as they were before the
  sweep.
\<close>

theorem callable_exception_propagates:
  assumes pre: "TaskManager_Update pre mgr w = (None, mgr1, w1)"
    and k: "k \<notin> set pre"
    and tk: "mAllTasks mgr k = Some (Owns tk)"
    and due: "due tk (clock w1 (reads w1))"
    and raises: "body (mTask tk) (user w1) = (Some x, u')"
  shows "Task_Update tk (w1\<lparr>trace := trace w1 @ [Poll k]\<rparr>) =
           (Some x, tk\<lparr>mNextExecStamp := clock w1 (reads w1) + mNanoInterval tk\<rparr>,
            w1\<lparr>reads := Suc (reads w1),
               trace := trace w1 @ [Poll k, Fire (ident (mTask tk))], user := u'\<rparr>) \<and>
         TaskManager_Update (pre @ k # post) mgr w =
           (Some (Thrown x),
            mgr1\<lparr>mAllTasks := (mAllTasks mgr1)(k \<mapsto>
              Owns (tk\<lparr>mNextExecStamp := clock w1 (reads w1) + mNanoInterval tk\<rparr>))\<rparr>,
            w1\<lparr>reads := Suc (reads w1),
               trace := trace w1 @ [Poll k, Fire (ident (mTask tk))], user := u'\<rparr>) \<and>
         (\<forall>k'\<in>set post. k' \<notin> set pre \<and> k' \<noteq> k \<longrightarrow>
            mAllTasks (fst (snd (TaskManager_Update (pre @ k # post) mgr w))) k' =
              mAllTasks mgr k')"
proof -
  let ?w = "w1\<lparr>trace := trace w1 @ [Poll k]\<rparr>"
  let ?tk = "tk\<lparr>mNextExecStamp := clock w1 (reads w1) + mNanoInterval tk\<rparr>"
  let ?w' = "w1\<lparr>reads := Suc (reads w1),
               trace := trace w1 @ [Poll k, Fire (ident (mTask tk))], user := u'\<rparr>"
  from due have armed: "mHasSetInterval tk"
    and nd: "\<not> clock ?w (reads ?w) <s mNextExecStamp tk"
    by (simp_all add: due_def signed.not_less)
  from Task_Update_due [OF armed nd] raises
  have upd: "Task_Update tk ?w = (Some x, ?tk, ?w')" by simp
  from TaskManager_Update_frame [OF k pre] tk
  have tk1: "mAllTasks mgr1 k = Some (Owns tk)" by simp
  have sweep: "TaskManager_Update (pre @ k # post) mgr w =
     (Some (Thrown x), mgr1\<lparr>mAllTasks := (mAllTasks mgr1)(k \<mapsto> Owns ?tk)\<rparr>, ?w')"
    by (simp add: TaskManager_Update_append pre tk1 upd)
  have "mAllTasks (fst (snd (TaskManager_Update (pre @ k # post) mgr w))) k' = mAllTasks mgr k'"
    if "k' \<notin> set pre" "k' \<noteq> k" for k'
    using TaskManager_Update_frame [OF that(1) pre] that(2) by (simp add: sweep)
  with upd sweep show ?thesis by blast
qed

text \<open>
  Three entries swept at 1.2 seconds in the order \<open>b\<close>, \<open>a\<close>, \<open>c\<close>: the timer under \<open>b\<close>
  fires, the callable under \<open>a\<close> throws 13, and the entry under \<open>c\<close> is not reached.
\<close>

theorem callable_exception_propagates_witness:
  "TaskManager_Update [''b''] mgr_mixed (w_a\<lparr>reads := 3\<rparr>) =
     (None,
      mgr_mixed\<lparr>mAllTasks :=
        (mAllTasks mgr_mixed)(''b'' \<mapsto> Owns (tk_a\<lparr>mNextExecStamp := 2200000000\<rparr>))\<rparr>,
      w_a\<lparr>reads := 4, trace := [Poll ''b'', Fire 7], user := 1\<rparr>) \<and>
   mAllTasks mgr_mixed ''a'' = Some (Owns tk_boom) \<and>
   due tk_boom (clock w_a 4) \<and>
   body (mTask tk_boom) 1 = (Some 13, 1) \<and>
   fst (TaskManager_Update [''b'', ''a'', ''c''] mgr_mixed (w_a\<lparr>reads := 3\<rparr>)) =
     Some (Thrown 13) \<and>
   trace (snd (snd (TaskManager_Update [''b'', ''a'', ''c''] mgr_mixed (w_a\<lparr>reads := 3\<rparr>)))) =
     [Poll ''b'', Fire 7, Poll ''a'', Fire 8] \<and>
   mAllTasks (fst (snd (TaskManager_Update [''b'', ''a'', ''c''] mgr_mixed
     (w_a\<lparr>reads := 3\<rparr>)))) ''c'' = Some (Owns tk_off)"
proof -
  let ?w1 = "w_a\<lparr>reads := 4, trace := [Poll ''b'', Fire 7], user := 1\<rparr>"
  have p: "TaskManager_Update [''b''] mgr_mixed (w_a\<lparr>reads := 3\<rparr>) =
     (None,
      mgr_mixed\<lparr>mAllTasks :=
        (mAllTasks mgr_mixed)(''b'' \<mapsto> Owns (tk_a\<lparr>mNextExecStamp := 2200000000\<rparr>))\<rparr>,
      ?w1)"
    by (simp add: mgr_mixed_def run_defs w_a_def tk_a_def tick_def)
  have k: "''a'' \<notin> set [''b'']" by simp
  have t: "mAllTasks mgr_mixed ''a'' = Some (Owns tk_boom)" by (simp add: mgr_mixed_def)
  have d: "due tk_boom (clock ?w1 (reads ?w1))"
    by (simp add: due_def tk_boom_def w_a_def word_sle_eq)
  have r: "body (mTask tk_boom) (user ?w1) = (Some 13, 1)"
    by (simp add: tk_boom_def boom_def w_a_def)
  have c: "mAllTasks mgr_mixed ''c'' = Some (Owns tk_off)" by (simp add: mgr_mixed_def)
  from callable_exception_propagates [OF p k t d r, of "[''c'']"] p t d r c
  show ?thesis by (simp add: example_defs run_defs)
qed

end
